theory Spec2Isabelle
  imports Main "HOL-Library.Sublist" "HOL-Library.AList"
begin

section \<open>Strings: the Go library functions the engine calls\<close>

text \<open>
  A Go string is a sequence of bytes, here a \<open>string\<close> (a list of 8-bit characters).
  \<open>strings.HasPrefix s p\<close> is \<open>prefix p s\<close>.
\<close>

definition HasPrefix :: "string \<Rightarrow> string \<Rightarrow> bool" where
  "HasPrefix s p = prefix p s"

text \<open>
  The white-space runes of \<open>unicode.IsSpace\<close>, each as its UTF-8 bytes: tab, line feed,
  vertical tab, form feed, carriage return, space, U+0085, U+00A0, U+1680, U+2000 to U+200A,
  U+2028, U+2029, U+202F, U+205F and U+3000.
\<close>

definition spaceRunes :: "string list" where
  "spaceRunes =
     [[CHR 0x09], [CHR 0x0A], [CHR 0x0B], [CHR 0x0C], [CHR 0x0D], [CHR 0x20],
      [CHR 0xC2, CHR 0x85], [CHR 0xC2, CHR 0xA0],
      [CHR 0xE1, CHR 0x9A, CHR 0x80],
      [CHR 0xE2, CHR 0x80, CHR 0x80], [CHR 0xE2, CHR 0x80, CHR 0x81],
      [CHR 0xE2, CHR 0x80, CHR 0x82], [CHR 0xE2, CHR 0x80, CHR 0x83],
      [CHR 0xE2, CHR 0x80, CHR 0x84], [CHR 0xE2, CHR 0x80, CHR 0x85],
      [CHR 0xE2, CHR 0x80, CHR 0x86], [CHR 0xE2, CHR 0x80, CHR 0x87],
      [CHR 0xE2, CHR 0x80, CHR 0x88], [CHR 0xE2, CHR 0x80, CHR 0x89],
      [CHR 0xE2, CHR 0x80, CHR 0x8A],
      [CHR 0xE2, CHR 0x80, CHR 0xA8], [CHR 0xE2, CHR 0x80, CHR 0xA9],
      [CHR 0xE2, CHR 0x80, CHR 0xAF], [CHR 0xE2, CHR 0x81, CHR 0x9F],
      [CHR 0xE3, CHR 0x80, CHR 0x80]]"

text \<open>
  \<open>trimRunes rs s\<close> removes from the front of \<open>s\<close> every leading occurrence of one of the
  byte sequences \<open>rs\<close>, until none is a prefix of what is left.
\<close>

function trimRunes :: "string list \<Rightarrow> string \<Rightarrow> string" where
  "trimRunes rs s =
     (case List.find (\<lambda>r. r \<noteq> [] \<and> prefix r s) rs of
        None \<Rightarrow> s
      | Some r \<Rightarrow> trimRunes rs (drop (length r) s))"
  by pat_completeness auto
termination
proof (relation "measure (\<lambda>(rs, s). length s)")
  show "wf (measure (\<lambda>(rs, s). length s))" by simp
next
  fix rs :: "string list" and s r :: string
  assume "List.find (\<lambda>r. r \<noteq> [] \<and> prefix r s) rs = Some r"
  then have "r \<noteq> []" and "prefix r s"
    by (auto simp: find_Some_iff)
  then have "s \<noteq> []" and "0 < length r"
    by auto
  then show "((rs, drop (length r) s), (rs, s)) \<in> measure (\<lambda>(rs, s). length s)"
    by simp
qed

declare trimRunes.simps [simp del]

text \<open>
  \<open>strings.TrimSpace\<close>: the white-space runes are cut from the front, then from the back
  (the back is the front of the reversed string, with every rune's bytes reversed).
\<close>

definition TrimSpace :: "string \<Rightarrow> string" where
  "TrimSpace s = rev (trimRunes (map rev spaceRunes) (rev (trimRunes spaceRunes s)))"

text \<open>\<open>strings.Split s sep\<close> for the one-byte separator \<open>c\<close>: never the empty list.\<close>

fun Split :: "string \<Rightarrow> char \<Rightarrow> string list" where
  "Split [] c = [[]]"
| "Split (x # xs) c =
     (if x = c then [] # Split xs c
      else (case Split xs c of [] \<Rightarrow> [[x]] | p # ps \<Rightarrow> (x # p) # ps))"

text \<open>\<open>strings.Join parts sep\<close>.\<close>

fun Join :: "string list \<Rightarrow> string \<Rightarrow> string" where
  "Join [] sep = []"
| "Join [p] sep = p"
| "Join (p # q # ps) sep = p @ sep @ Join (q # ps) sep"

text \<open>
  \<open>strings.ReplaceAll s old new\<close>. For a non-empty \<open>old\<close> the matches are taken leftmost
  first and do not overlap. For the empty \<open>old\<close> Go inserts \<open>new\<close> before every rune and
  at the end; the model inserts it before every byte and at the end, which is the same on
  ASCII text.
\<close>

function replaceFrom :: "string \<Rightarrow> string \<Rightarrow> string \<Rightarrow> string" where
  "replaceFrom old new [] = []"
| "replaceFrom old new (c # cs) =
     (if old \<noteq> [] \<and> prefix old (c # cs)
      then new @ replaceFrom old new (drop (length old) (c # cs))
      else c # replaceFrom old new cs)"
  by pat_completeness auto
termination
  by (relation "measure (\<lambda>(old, new, s). length s)") (auto simp: neq_Nil_conv)

definition ReplaceAll :: "string \<Rightarrow> string \<Rightarrow> string \<Rightarrow> string" where
  "ReplaceAll s old new =
     (if old = [] then concat (map (\<lambda>c. new @ [c]) s) @ new
      else replaceFrom old new s)"

text \<open>
  \<open>fmt.Sprintf "%d"\<close> of an \<open>int\<close>, and the scan of \<open>fmt.Sscanf s "%d"\<close> into a
  variable that holds 0: white space other than a line feed is skipped, one sign is
  accepted, then the longest run of decimal digits is read. With no digit, or with a value
  outside the 64-bit range, the scan fails and the variable keeps 0.
\<close>

function natDigits :: "nat \<Rightarrow> string" where
  "natDigits n =
     (if n < 10 then [char_of (48 + n)]
      else natDigits (n div 10) @ [char_of (48 + n mod 10)])"
  by pat_completeness auto
termination
  by (relation "measure (\<lambda>n. n)") auto

declare natDigits.simps [simp del]

definition formatInt :: "int \<Rightarrow> string" where
  "formatInt i = (if i < 0 then CHR ''-'' # natDigits (nat (- i)) else natDigits (nat i))"

definition isDigit :: "char \<Rightarrow> bool" where
  "isDigit c = (48 \<le> (of_char c :: nat) \<and> (of_char c :: nat) \<le> 57)"

definition digitsValue :: "string \<Rightarrow> int" where
  "digitsValue ds = foldl (\<lambda>a c. 10 * a + (of_char c - 48)) 0 ds"

definition scanInt :: "string \<Rightarrow> int" where
  "scanInt s =
     (let t = trimRunes (filter (\<lambda>r. r \<noteq> [CHR 0x0A]) spaceRunes) s;
          neg = HasPrefix t ''-'';
          u = (if HasPrefix t ''+'' \<or> HasPrefix t ''-'' then tl t else t);
          ds = takeWhile isDigit u;
          v = digitsValue ds
      in if ds = [] then 0
         else if neg then (if 2 ^ 63 < v then 0 else - v)
         else (if 2 ^ 63 - 1 < v then 0 else v))"

text \<open>Addition on Go's 64-bit \<open>int\<close> wraps around.\<close>

definition wrap64 :: "int \<Rightarrow> int" where
  "wrap64 x = (x + 2 ^ 63) mod 2 ^ 64 - 2 ^ 63"

section \<open>Data model\<close>

text \<open>
  Modelled from the spec: the declaration of \<open>types.Issue\<close> and of its dependency type
  is not among the sources. The records carry the fields the engine reads and writes
  (\<open>ID\<close>, \<open>Title\<close>, the four free-text fields, \<open>Dependencies\<close> with \<open>DependsOnID\<close>);
  every other field of the Go structs lives in the records' extension part, which no
  operation below touches.
\<close>

record Dependency =
  DependsOnID :: string

record 'd Issue =
  ID :: string
  Title :: string
  Description :: string
  Design :: string
  AcceptanceCriteria :: string
  Notes :: string
  Dependencies :: "'d Dependency_scheme list"

record ('d, 'a) ConflictBlock =
  HeadIssues :: "('d, 'a) Issue_scheme list"
  BaseIssues :: "('d, 'a) Issue_scheme list"
  LineStart :: nat
  LineEnd :: nat

record Resolution =
  Action :: string
  IssueID :: string
  OldID :: string
  NewID :: string
  Reason :: string

datatype error =
    OpenError
  | TokenTooLong
  | StoreNotInitialized
  | SearchError string
  | ReadError
  | WriteError
  | Wrapped string error

text \<open>
  What the engine takes from outside the sources. \<open>unmarshal\<close> is \<open>json.Unmarshal\<close> into
  a \<open>types.Issue\<close> (\<open>None\<close> when it returns an error), \<open>marshal\<close> is \<open>json.Marshal\<close> of
  one (the engine ignores its error and uses the bytes it got). \<open>rangeOrder\<close> is the order
  in which a \<open>range\<close> loop visits the entries of a Go map, which the language leaves open.
\<close>

record ('d, 'a) env =
  unmarshal :: "string \<Rightarrow> ('d, 'a) Issue_scheme option"
  marshal :: "('d, 'a) Issue_scheme \<Rightarrow> string"
  rangeOrder :: "(string \<times> string) list \<Rightarrow> (string \<times> string) list"

text \<open>
  The file at \<open>jsonlPath\<close>: its bytes when it can be opened and read, and whether
  \<open>os.WriteFile\<close> can open it for writing.
\<close>

record jsonlFile =
  content :: "string option"
  writable :: bool

text \<open>
  The storage handle \<open>store\<close>: \<open>None\<close> is the nil handle; otherwise what
  \<open>store.SearchIssues\<close> returns, an error or every issue of the database.
\<close>

type_synonym ('d, 'a) store = "(error + ('d, 'a) Issue_scheme list) option"

section \<open>ConflictScanner: detectConflicts\<close>

text \<open>
  The loop variables of \<open>detectConflicts\<close>. The pointer \<open>current\<close> is nil exactly while
  \<open>inConflict\<close> is false (both are set at an open marker and cleared at a close marker),
  so the model keeps the block and lets \<open>inConflict\<close> say whether it is live.
\<close>

record ('d, 'a) scanState =
  conflicts :: "('d, 'a) ConflictBlock list"
  current :: "('d, 'a) ConflictBlock"
  inConflict :: bool
  inHead :: bool
  lineNum :: nat

definition emptyBlock :: "('d, 'a) ConflictBlock" where
  "emptyBlock = \<lparr>HeadIssues = [], BaseIssues = [], LineStart = 0, LineEnd = 0\<rparr>"

definition scanInit :: "('d, 'a) scanState" where
  "scanInit = \<lparr>conflicts = [], current = emptyBlock, inConflict = False, inHead = False,
               lineNum = 0\<rparr>"

text \<open>One pass of the loop body over the scanner's token \<open>raw\<close>.\<close>

definition scanLine :: "('d, 'a) env \<Rightarrow> ('d, 'a) scanState \<Rightarrow> string \<Rightarrow> ('d, 'a) scanState" where
  "scanLine e st0 raw =
     (let line = TrimSpace raw;
          st = st0\<lparr>lineNum := lineNum st0 + 1\<rparr>
      in if line = [] then st
         else if HasPrefix line ''<<<<<<<'' then
           st\<lparr>inConflict := True, inHead := True,
              current := emptyBlock\<lparr>LineStart := lineNum st\<rparr>\<rparr>
         else if HasPrefix line ''======='' then
           (if inConflict st then st\<lparr>inHead := False\<rparr> else st)
         else if HasPrefix line ''>>>>>>>'' then
           (if inConflict st then
              st\<lparr>inConflict := False,
                 conflicts := conflicts st @ [(current st)\<lparr>LineEnd := lineNum st\<rparr>],
                 current := emptyBlock\<rparr>
            else st)
         else if inConflict st \<and> \<not> HasPrefix line ''<'' \<and> \<not> HasPrefix line ''=''
                 \<and> \<not> HasPrefix line ''>'' then
           (case unmarshal e line of
              None \<Rightarrow> st
            | Some issue \<Rightarrow>
                if inHead st then
                  st\<lparr>current := (current st)\<lparr>HeadIssues := HeadIssues (current st) @ [issue]\<rparr>\<rparr>
                else
                  st\<lparr>current := (current st)\<lparr>BaseIssues := BaseIssues (current st) @ [issue]\<rparr>\<rparr>)
         else st)"

definition scanLines :: "('d, 'a) env \<Rightarrow> ('d, 'a) scanState \<Rightarrow> string list \<Rightarrow> ('d, 'a) scanState" where
  "scanLines e st ls = foldl (scanLine e) st ls"

text \<open>
  The tokens of a \<open>bufio.Scanner\<close> with the default split function: the text between line
  feeds, without a trailing carriage return, and no token for the empty rest after the
  last line feed. A line of 64 KiB or more does not fit the scanner's buffer: \<open>Scan\<close> stops
  and \<open>Err\<close> reports it.
\<close>

definition dropCR :: "string \<Rightarrow> string" where
  "dropCR l = (if l \<noteq> [] \<and> last l = CHR 0x0D then butlast l else l)"

definition scanTokens :: "string \<Rightarrow> string list" where
  "scanTokens s =
     (let ls = Split s (CHR 0x0A)
      in map dropCR (if last ls = [] then butlast ls else ls))"

definition tokenTooLong :: "string \<Rightarrow> bool" where
  "tokenTooLong s = list_ex (\<lambda>l. 65536 \<le> int (length l)) (Split s (CHR 0x0A))"

text \<open>
  \<open>detectConflicts\<close> returns Go's pair of the blocks and an error; on an error path the
  blocks are the nil slice.
\<close>

definition detectConflicts :: "('d, 'a) env \<Rightarrow> jsonlFile \<Rightarrow> ('d, 'a) ConflictBlock list \<times> error option" where
  "detectConflicts e f =
     (case content f of
        None \<Rightarrow> ([], Some (Wrapped ''failed to open'' OpenError))
      | Some s \<Rightarrow>
          if tokenTooLong s then ([], Some (Wrapped ''error reading file'' TokenTooLong))
          else (conflicts (scanLines e scanInit (scanTokens s)), None))"

section \<open>IdentifierSource: getNextAvailableID\<close>

text \<open>
  The loop over \<open>allIssues\<close> keeps \<open>maxNum\<close> and \<open>prefix\<close>; an id with no \<open>-\<close> is
  passed over.
\<close>

definition nextIDStep :: "int \<times> string \<Rightarrow> ('d, 'a) Issue_scheme \<Rightarrow> int \<times> string" where
  "nextIDStep acc issue =
     (let maxNum = fst acc; pre = snd acc; parts = Split (ID issue) (CHR ''-'')
      in if 2 \<le> length parts then
           (let pre' = (if pre = [] then Join (butlast parts) ''-'' else pre);
                num = scanInt (last parts)
            in (if maxNum < num then num else maxNum, pre'))
         else (maxNum, pre))"

definition getNextAvailableID :: "('d, 'a) store \<Rightarrow> string \<times> error option" where
  "getNextAvailableID st =
     (case st of
        None \<Rightarrow> ([], Some StoreNotInitialized)
      | Some (Inl err) \<Rightarrow> ([], Some err)
      | Some (Inr allIssues) \<Rightarrow>
          (let acc = foldl nextIDStep (0, []) allIssues;
               maxNum = fst acc;
               pre = (if snd acc = [] then ''bd'' else snd acc)
           in (pre @ ''-'' @ formatInt (wrap64 (maxNum + 1)), None)))"

section \<open>CollisionResolver: resolveConflictsMechanical\<close>

definition keepHead :: "string \<Rightarrow> Resolution" where
  "keepHead i = \<lparr>Action = ''keep'', IssueID = i, OldID = [], NewID = [], Reason = ''HEAD version''\<rparr>"

definition keepBase :: "string \<Rightarrow> Resolution" where
  "keepBase i = \<lparr>Action = ''keep'', IssueID = i, OldID = [], NewID = [], Reason = ''No collision''\<rparr>"

definition remapBase :: "string \<Rightarrow> string \<Rightarrow> Resolution" where
  "remapBase old new =
     \<lparr>Action = ''remap'', IssueID = [], OldID = old, NewID = new,
      Reason = ''ID '' @ old @ '' exists in both HEAD and BASE''\<rparr>"

text \<open>
  The first pair of loops: every head issue of every block, in order, enters \<open>headIDs\<close>
  and gets a keep resolution.
\<close>

definition headPass :: "('d, 'a) ConflictBlock list \<Rightarrow> string set \<times> Resolution list" where
  "headPass cs =
     foldl (\<lambda>acc issue. (insert (ID issue) (fst acc), snd acc @ [keepHead (ID issue)]))
       ({}, []) (concat (map HeadIssues cs))"

text \<open>
  The second pair of loops, over every base issue of every block, in order. A failing
  \<open>getNextAvailableID\<close> leaves the function at once with the nil slice and the error.
\<close>

fun basePass :: "('d, 'a) store \<Rightarrow> string set \<Rightarrow> Resolution list \<Rightarrow> ('d, 'a) Issue_scheme list
    \<Rightarrow> Resolution list \<times> error option" where
  "basePass st headIDs resolutions [] = (resolutions, None)"
| "basePass st headIDs resolutions (issue # rest) =
     (if ID issue \<in> headIDs then
        (case getNextAvailableID st of
           (newID, Some err) \<Rightarrow> ([], Some (Wrapped ''failed to get next ID'' err))
         | (newID, None) \<Rightarrow>
             basePass st (insert newID headIDs)
               (resolutions @ [remapBase (ID issue) newID]) rest)
      else
        basePass st (insert (ID issue) headIDs) (resolutions @ [keepBase (ID issue)]) rest)"

definition resolveConflictsMechanical ::
    "('d, 'a) store \<Rightarrow> ('d, 'a) ConflictBlock list \<Rightarrow> Resolution list \<times> error option" where
  "resolveConflictsMechanical st cs =
     (let hp = headPass cs
      in basePass st (fst hp) (snd hp) (concat (map BaseIssues cs)))"

section \<open>ReferenceRewriter and FileReconstructor: applyResolutions\<close>

text \<open>
  The remap table is a Go map: an assignment to a key that is present replaces its value.
  The model keeps the entries in a list with one entry for each key.
\<close>

definition buildRemapTable :: "Resolution list \<Rightarrow> (string \<times> string) list" where
  "buildRemapTable rs =
     foldl (\<lambda>tbl res. if Action res = ''remap'' then AList.update (OldID res) (NewID res) tbl else tbl)
       [] rs"

definition remapTextReferences :: "('d, 'a) env \<Rightarrow> string \<Rightarrow> (string \<times> string) list \<Rightarrow> string" where
  "remapTextReferences e text tbl =
     foldl (\<lambda>result entry. ReplaceAll result (fst entry) (snd entry)) text (rangeOrder e tbl)"

definition remapDependency :: "(string \<times> string) list \<Rightarrow> 'd Dependency_scheme \<Rightarrow> 'd Dependency_scheme" where
  "remapDependency tbl dep =
     (case map_of tbl (DependsOnID dep) of
        Some newID \<Rightarrow> dep\<lparr>DependsOnID := newID\<rparr>
      | None \<Rightarrow> dep)"

definition remapTexts :: "('d, 'a) env \<Rightarrow> (string \<times> string) list \<Rightarrow> ('d, 'a) Issue_scheme \<Rightarrow> ('d, 'a) Issue_scheme" where
  "remapTexts e tbl issue =
     issue\<lparr>Description := remapTextReferences e (Description issue) tbl,
           Design := remapTextReferences e (Design issue) tbl,
           AcceptanceCriteria := remapTextReferences e (AcceptanceCriteria issue) tbl,
           Notes := remapTextReferences e (Notes issue) tbl\<rparr>"

text \<open>What the loop body does to an issue parsed inside a conflict.\<close>

definition rewriteInside :: "('d, 'a) env \<Rightarrow> (string \<times> string) list \<Rightarrow> ('d, 'a) Issue_scheme \<Rightarrow> ('d, 'a) Issue_scheme" where
  "rewriteInside e tbl issue =
     (let issue1 = (case map_of tbl (ID issue) of
                      Some newID \<Rightarrow> issue\<lparr>ID := newID\<rparr>
                    | None \<Rightarrow> issue);
          issue2 = issue1\<lparr>Dependencies := map (remapDependency tbl) (Dependencies issue1)\<rparr>
      in remapTexts e tbl issue2)"

text \<open>
  What it does to an issue parsed outside a conflict: the rewritten issue and the flag
  \<open>modified\<close>, which stays false when no dependency target is a key of the table and
  no text field comes back different.
\<close>

definition rewriteOutside :: "('d, 'a) env \<Rightarrow> (string \<times> string) list \<Rightarrow> ('d, 'a) Issue_scheme \<Rightarrow> ('d, 'a) Issue_scheme \<times> bool" where
  "rewriteOutside e tbl issue =
     (let untouched =
            (list_all (\<lambda>dep. map_of tbl (DependsOnID dep) = None) (Dependencies issue)
             \<and> remapTextReferences e (Description issue) tbl = Description issue
             \<and> remapTextReferences e (Design issue) tbl = Design issue
             \<and> remapTextReferences e (AcceptanceCriteria issue) tbl = AcceptanceCriteria issue
             \<and> remapTextReferences e (Notes issue) tbl = Notes issue);
          issue1 = issue\<lparr>Dependencies := map (remapDependency tbl) (Dependencies issue)\<rparr>
      in (remapTexts e tbl issue1, \<not> untouched))"

text \<open>The loop variables of \<open>applyResolutions\<close> (\<open>inRegion\<close> is its \<open>inConflict\<close>).\<close>

record applyState =
  resolved :: "string list"
  inRegion :: bool
  conflictLines :: "string list"

definition applyInit :: applyState where
  "applyInit = \<lparr>resolved = [], inRegion = False, conflictLines = []\<rparr>"

definition applyLine :: "('d, 'a) env \<Rightarrow> (string \<times> string) list \<Rightarrow> applyState \<Rightarrow> string \<Rightarrow> applyState" where
  "applyLine e tbl st line =
     (let trimmed = TrimSpace line
      in if HasPrefix trimmed ''<<<<<<<'' then
           st\<lparr>inRegion := True, conflictLines := []\<rparr>
         else if HasPrefix trimmed ''>>>>>>>'' then
           st\<lparr>inRegion := False, resolved := resolved st @ conflictLines st, conflictLines := []\<rparr>
         else if HasPrefix trimmed ''======='' then st
         else if inRegion st then
           (if trimmed \<noteq> [] then
              (case unmarshal e trimmed of
                 Some issue \<Rightarrow>
                   st\<lparr>conflictLines := conflictLines st @ [marshal e (rewriteInside e tbl issue)]\<rparr>
               | None \<Rightarrow> st)
            else st)
         else
           (if trimmed \<noteq> [] \<and> \<not> HasPrefix trimmed ''<'' \<and> \<not> HasPrefix trimmed ''=''
               \<and> \<not> HasPrefix trimmed ''>'' then
              (case unmarshal e trimmed of
                 Some issue \<Rightarrow>
                   (let rw = rewriteOutside e tbl issue
                    in if snd rw then st\<lparr>resolved := resolved st @ [marshal e (fst rw)]\<rparr>
                       else st\<lparr>resolved := resolved st @ [line]\<rparr>)
               | None \<Rightarrow> st\<lparr>resolved := resolved st @ [line]\<rparr>)
            else st\<lparr>resolved := resolved st @ [line]\<rparr>))"

definition applyLines :: "('d, 'a) env \<Rightarrow> (string \<times> string) list \<Rightarrow> applyState \<Rightarrow> string list \<Rightarrow> applyState" where
  "applyLines e tbl st ls = foldl (applyLine e tbl) st ls"

text \<open>
  \<open>applyResolutions\<close> returns its error and leaves the file as the second component.
  The argument \<open>conflicts\<close> is passed by the caller and never read.
\<close>

definition applyResolutions ::
    "('d, 'a) env \<Rightarrow> jsonlFile \<Rightarrow> ('d, 'a) ConflictBlock list \<Rightarrow> Resolution list
     \<Rightarrow> error option \<times> jsonlFile" where
  "applyResolutions e f cs resolutions =
     (case content f of
        None \<Rightarrow> (Some (Wrapped ''failed to read file'' ReadError), f)
      | Some s \<Rightarrow>
          (let ls = Split s (CHR 0x0A);
               remapTable = buildRemapTable resolutions;
               out = Join (resolved (applyLines e remapTable applyInit ls)) [CHR 0x0A]
           in if writable f then (None, f\<lparr>content := Some out\<rparr>)
              else (Some (Wrapped ''failed to write file'' WriteError), f)))"

section \<open>The command: resolveConflictsCmd\<close>

datatype ('d, 'a) outcome =
    Exit1 error
  | NoConflicts
  | Detected "('d, 'a) ConflictBlock list"
  | DryRun "Resolution list"
  | Applied nat nat

definition resolveConflictsCmd ::
    "('d, 'a) env \<Rightarrow> bool \<Rightarrow> bool \<Rightarrow> ('d, 'a) store \<Rightarrow> jsonlFile \<Rightarrow> ('d, 'a) outcome \<times> jsonlFile" where
  "resolveConflictsCmd e auto dryRun st f =
     (case detectConflicts e f of
        (cs, Some err) \<Rightarrow> (Exit1 err, f)
      | (cs, None) \<Rightarrow>
          if cs = [] then (NoConflicts, f)
          else if \<not> auto \<and> \<not> dryRun then (Detected cs, f)
          else
            (case resolveConflictsMechanical st cs of
               (rs, Some err) \<Rightarrow> (Exit1 err, f)
             | (rs, None) \<Rightarrow>
                 if dryRun then (DryRun rs, f)
                 else
                   (case applyResolutions e f cs rs of
                      (Some err, f') \<Rightarrow> (Exit1 err, f')
                    | (None, f') \<Rightarrow> (Applied (length cs) (length rs), f'))))"

section \<open>A codec for the minimal record schema\<close>

text \<open>
  Modelled from the spec: \<open>json.Unmarshal\<close> and \<open>json.Marshal\<close> on \<open>types.Issue\<close> are
  not among the sources. This codec covers the minimal schema of the spec: one JSON object
  on a line, without white space and without escapes in its strings, whose values are
  strings, but for \<open>dependencies\<close>, an array of objects with string values. As
  \<open>encoding/json\<close> does for a struct, decoding passes over a key that the record has no
  field for, and encoding writes the record's fields, in their order, leaving out an
  empty text field and an empty dependency list. It is used at concrete inputs only;
  the general theorems hold for every \<open>env\<close>.
\<close>

datatype jvalue = JString string | JObjects "(string \<times> string) list list"

definition quote :: char where
  "quote = CHR 0x22"

fun readString :: "string \<Rightarrow> (string \<times> string) option" where
  "readString [] = None"
| "readString (c # cs) =
     (if c = quote then
        (case dropWhile (\<lambda>x. x \<noteq> quote) cs of
           [] \<Rightarrow> None
         | q # rest \<Rightarrow> Some (takeWhile (\<lambda>x. x \<noteq> quote) cs, rest))
      else None)"

text \<open>The members of an object with string values, after its opening brace; the number
  bounds the members still to read.\<close>

fun readMembers :: "nat \<Rightarrow> string \<Rightarrow> ((string \<times> string) list \<times> string) option" where
  "readMembers 0 s = None"
| "readMembers (Suc n) s =
     (case readString s of
        None \<Rightarrow> None
      | Some (k, r) \<Rightarrow>
          (case r of
             [] \<Rightarrow> None
           | c # r1 \<Rightarrow>
               if c = CHR '':'' then
                 (case readString r1 of
                    None \<Rightarrow> None
                  | Some (v, r2) \<Rightarrow>
                      (case r2 of
                         [] \<Rightarrow> None
                       | d # r3 \<Rightarrow>
                           if d = CHR ''}'' then Some ([(k, v)], r3)
                           else if d = CHR '','' then
                             (case readMembers n r3 of
                                None \<Rightarrow> None
                              | Some (ms, r4) \<Rightarrow> Some ((k, v) # ms, r4))
                           else None))
               else None))"

definition readObject :: "string \<Rightarrow> ((string \<times> string) list \<times> string) option" where
  "readObject s =
     (if HasPrefix s ''{}'' then Some ([], drop 2 s)
      else if HasPrefix s ''{'' then readMembers (length s) (tl s)
      else None)"

text \<open>The objects of an array, after its opening bracket.\<close>

fun readObjects :: "nat \<Rightarrow> string \<Rightarrow> ((string \<times> string) list list \<times> string) option" where
  "readObjects 0 s = None"
| "readObjects (Suc n) s =
     (case readObject s of
        None \<Rightarrow> None
      | Some (ob, r) \<Rightarrow>
          (case r of
             [] \<Rightarrow> None
           | d # r1 \<Rightarrow>
               if d = CHR '']'' then Some ([ob], r1)
               else if d = CHR '','' then
                 (case readObjects n r1 of
                    None \<Rightarrow> None
                  | Some (obs, r2) \<Rightarrow> Some (ob # obs, r2))
               else None))"

definition readValue :: "string \<Rightarrow> (jvalue \<times> string) option" where
  "readValue s =
     (if HasPrefix s ''[]'' then Some (JObjects [], drop 2 s)
      else if HasPrefix s ''['' then
        (case readObjects (length s) (tl s) of
           None \<Rightarrow> None
         | Some (obs, r) \<Rightarrow> Some (JObjects obs, r))
      else
        (case readString s of
           None \<Rightarrow> None
         | Some (v, r) \<Rightarrow> Some (JString v, r)))"

text \<open>The members of the record's object, after its opening brace.\<close>

fun readFields :: "nat \<Rightarrow> string \<Rightarrow> ((string \<times> jvalue) list \<times> string) option" where
  "readFields 0 s = None"
| "readFields (Suc n) s =
     (case readString s of
        None \<Rightarrow> None
      | Some (k, r) \<Rightarrow>
          (case r of
             [] \<Rightarrow> None
           | c # r1 \<Rightarrow>
               if c = CHR '':'' then
                 (case readValue r1 of
                    None \<Rightarrow> None
                  | Some (v, r2) \<Rightarrow>
                      (case r2 of
                         [] \<Rightarrow> None
                       | d # r3 \<Rightarrow>
                           if d = CHR ''}'' then Some ([(k, v)], r3)
                           else if d = CHR '','' then
                             (case readFields n r3 of
                                None \<Rightarrow> None
                              | Some (ms, r4) \<Rightarrow> Some ((k, v) # ms, r4))
                           else None))
               else None))"

definition readRecord :: "string \<Rightarrow> (string \<times> jvalue) list option" where
  "readRecord s =
     (if s = ''{}'' then Some []
      else if HasPrefix s ''{'' then
        (case readFields (length s) (tl s) of
           Some (ms, []) \<Rightarrow> Some ms
         | _ \<Rightarrow> None)
      else None)"

definition emptyIssue :: "(unit, unit) Issue_scheme" where
  "emptyIssue = \<lparr>ID = [], Title = [], Description = [], Design = [],
                 AcceptanceCriteria = [], Notes = [], Dependencies = []\<rparr>"

definition decodeDependency :: "(string \<times> string) list \<Rightarrow> Dependency" where
  "decodeDependency ob =
     foldl (\<lambda>dep kv. if fst kv = ''depends_on_id'' then dep\<lparr>DependsOnID := snd kv\<rparr> else dep)
       \<lparr>DependsOnID = []\<rparr> ob"

text \<open>One member is stored in the field of its key; a value of the wrong kind for the
  field is an error; a key with no field is passed over.\<close>

definition decodeField :: "(unit, unit) Issue_scheme option \<Rightarrow> string \<times> jvalue \<Rightarrow> (unit, unit) Issue_scheme option" where
  "decodeField acc kv =
     (case acc of
        None \<Rightarrow> None
      | Some issue \<Rightarrow>
          (let k = fst kv in
           if k = ''dependencies'' then
             (case snd kv of
                JObjects obs \<Rightarrow> Some (issue\<lparr>Dependencies := map decodeDependency obs\<rparr>)
              | JString v \<Rightarrow> None)
           else if k \<in> set [''id'', ''title'', ''description'', ''design'',
                             ''acceptance_criteria'', ''notes''] then
             (case snd kv of
                JObjects obs \<Rightarrow> None
              | JString v \<Rightarrow>
                  Some (if k = ''id'' then issue\<lparr>ID := v\<rparr>
                        else if k = ''title'' then issue\<lparr>Title := v\<rparr>
                        else if k = ''description'' then issue\<lparr>Description := v\<rparr>
                        else if k = ''design'' then issue\<lparr>Design := v\<rparr>
                        else if k = ''acceptance_criteria'' then issue\<lparr>AcceptanceCriteria := v\<rparr>
                        else issue\<lparr>Notes := v\<rparr>))
           else Some issue))"

text \<open>Modelled from the spec: \<open>json.Unmarshal\<close> of a line into the record; \<open>None\<close> is
  its error.\<close>

definition unmarshalIssue :: "string \<Rightarrow> (unit, unit) Issue_scheme option" where
  "unmarshalIssue s =
     (case readRecord s of
        None \<Rightarrow> None
      | Some ms \<Rightarrow> foldl decodeField (Some emptyIssue) ms)"

definition writeString :: "string \<Rightarrow> string" where
  "writeString v = quote # v @ [quote]"

definition writeMember :: "string \<Rightarrow> string \<Rightarrow> string" where
  "writeMember k v = writeString k @ '':'' @ writeString v"

definition writeOptional :: "string \<Rightarrow> string \<Rightarrow> string" where
  "writeOptional k v = (if v = [] then [] else '','' @ writeMember k v)"

definition writeDependency :: "Dependency \<Rightarrow> string" where
  "writeDependency dep = ''{'' @ writeMember ''depends_on_id'' (DependsOnID dep) @ ''}''"

text \<open>Modelled from the spec: \<open>json.Marshal\<close> of the record.\<close>

definition marshalIssue :: "(unit, unit) Issue_scheme \<Rightarrow> string" where
  "marshalIssue issue =
     ''{'' @ writeMember ''id'' (ID issue) @ '','' @ writeMember ''title'' (Title issue)
     @ writeOptional ''description'' (Description issue)
     @ writeOptional ''design'' (Design issue)
     @ writeOptional ''acceptance_criteria'' (AcceptanceCriteria issue)
     @ writeOptional ''notes'' (Notes issue)
     @ (if Dependencies issue = [] then []
        else '','' @ writeString ''dependencies'' @ '':['' @
             Join (map writeDependency (Dependencies issue)) '','' @ '']'')
     @ ''}''"

text \<open>The codec as an environment; the table's entries are visited in the order kept.\<close>

definition jsonEnv :: "(unit, unit) env" where
  "jsonEnv = \<lparr>unmarshal = unmarshalIssue, marshal = marshalIssue, rangeOrder = (\<lambda>tbl. tbl)\<rparr>"

text \<open>Concrete inputs: a record with an id only, a writable file from its lines, a store
  from the ids of its issues.\<close>

definition issueWithID :: "string \<Rightarrow> (unit, unit) Issue_scheme" where
  "issueWithID i = emptyIssue\<lparr>ID := i\<rparr>"

definition fileOfLines :: "string list \<Rightarrow> jsonlFile" where
  "fileOfLines ls = \<lparr>content = Some (Join ls [CHR 0x0A]), writable = True\<rparr>"

definition storeOfIDs :: "string list \<Rightarrow> (unit, unit) store" where
  "storeOfIDs ids = Some (Inr (map issueWithID ids))"

text \<open>The scanner after the open marker of a region: inside, on the head side.\<close>

definition inHeadState :: "(unit, unit) scanState" where
  "inHeadState = scanLine jsonEnv scanInit ''<<<<<<< HEAD''"

section \<open>Collision uniqueness\<close>

text \<open>
  Claim C1. N colliding base records get N pairwise distinct fresh ids. The code does not
  do this: \<open>getNextAvailableID\<close> reads the store, which the run does not change, and does
  not read \<open>headIDs\<close>, where the resolver reserves the id it was given. In the run below
  the base records \<open>bd-1\<close> and \<open>bd-2\<close> both collide with head records, and both are
  remapped to \<open>bd-6\<close>.
\<close>

theorem colliding_base_records_get_one_id:
  \<open>resolveConflictsCmd jsonEnv False True (storeOfIDs [''bd-1'', ''bd-2'', ''bd-5''])
     (fileOfLines [''<<<<<<< HEAD'', ''{"id":"bd-1","title":"A"}'', ''{"id":"bd-2","title":"B"}'',
                   ''======='', ''{"id":"bd-1","title":"C"}'', ''{"id":"bd-2","title":"D"}'',
                   ''>>>>>>> branch''])
   = (DryRun [keepHead ''bd-1'', keepHead ''bd-2'',
              remapBase ''bd-1'' ''bd-6'', remapBase ''bd-2'' ''bd-6''],
      fileOfLines [''<<<<<<< HEAD'', ''{"id":"bd-1","title":"A"}'', ''{"id":"bd-2","title":"B"}'',
                   ''======='', ''{"id":"bd-1","title":"C"}'', ''{"id":"bd-2","title":"D"}'',
                   ''>>>>>>> branch''])\<close>
  by code_simp

section \<open>The resolver\<close>


lemma headPass_acc:
  "snd (foldl (\<lambda>acc issue. (insert (ID issue) (fst acc), snd acc @ [keepHead (ID issue)])) (H, rs) xs)
     = rs @ map (\<lambda>issue. keepHead (ID issue)) xs"
  by (induction xs arbitrary: H rs) auto

lemma headPass_snd: "snd (headPass cs) = map (\<lambda>issue. keepHead (ID issue)) (concat (map HeadIssues cs))"
  unfolding headPass_def by (simp add: headPass_acc)

lemma basePass_error_nil: "basePass st H rs0 xs = (rs, Some err) \<Longrightarrow> rs = []"
proof (induction xs arbitrary: H rs0)
  case Nil
  then show ?case by simp
next
  case (Cons x xs)
  then show ?case
    by (auto split: if_splits prod.splits option.splits)
qed

lemma basePass_shape:
  "basePass st H rs0 xs = (rs, None) \<Longrightarrow>
     \<exists>ys. rs = rs0 @ ys \<and> list_all (\<lambda>r. Action r = ''remap'' \<longrightarrow> NewID r = fst (getNextAvailableID st)) ys"
proof (induction xs arbitrary: H rs0)
  case Nil
  then show ?case by simp
next
  case (Cons x xs)
  show ?case
  proof (cases "ID x \<in> H")
    case True
    obtain n err where g: "getNextAvailableID st = (n, err)" by (cases "getNextAvailableID st")
    with True Cons.prems have e: "err = None" by (cases err) auto
    with True Cons.prems g have "basePass st (insert n H) (rs0 @ [remapBase (ID x) n]) xs = (rs, None)"
      by simp
    from Cons.IH[OF this] obtain ys where "rs = (rs0 @ [remapBase (ID x) n]) @ ys"
      "list_all (\<lambda>r. Action r = ''remap'' \<longrightarrow> NewID r = fst (getNextAvailableID st)) ys" by blast
    then show ?thesis using g by (intro exI[of _ "remapBase (ID x) n # ys"]) (simp add: remapBase_def)
  next
    case False
    with Cons.prems have "basePass st (insert (ID x) H) (rs0 @ [keepBase (ID x)]) xs = (rs, None)"
      by simp
    from Cons.IH[OF this] obtain ys where "rs = (rs0 @ [keepBase (ID x)]) @ ys"
      "list_all (\<lambda>r. Action r = ''remap'' \<longrightarrow> NewID r = fst (getNextAvailableID st)) ys" by blast
    then show ?thesis by (intro exI[of _ "keepBase (ID x) # ys"]) (simp add: keepBase_def)
  qed
qed

lemma resolve_remaps_one_id:
  "list_all (\<lambda>r. Action r = ''remap'' \<longrightarrow> NewID r = fst (getNextAvailableID st))
     (fst (resolveConflictsMechanical st cs))"
proof -
  obtain rs err where r: "resolveConflictsMechanical st cs = (rs, err)"
    by (cases "resolveConflictsMechanical st cs")
  show ?thesis
  proof (cases err)
    case (Some e)
    with r have "rs = []"
      unfolding resolveConflictsMechanical_def Let_def by (auto dest: basePass_error_nil)
    with r show ?thesis by simp
  next
    case None
    with r have "basePass st (fst (headPass cs)) (snd (headPass cs)) (concat (map BaseIssues cs)) = (rs, None)"
      unfolding resolveConflictsMechanical_def Let_def by simp
    from basePass_shape[OF this] obtain ys where
      "rs = snd (headPass cs) @ ys"
      "list_all (\<lambda>r. Action r = ''remap'' \<longrightarrow> NewID r = fst (getNextAvailableID st)) ys" by blast
    with r show ?thesis
      by (auto simp: headPass_snd list_all_iff keepHead_def)
  qed
qed

lemma buildRemapTable_append:
  "buildRemapTable (pre @ post) = foldl (\<lambda>tbl res. if Action res = ''remap'' then AList.update (OldID res) (NewID res) tbl else tbl) (buildRemapTable pre) post"
  unfolding buildRemapTable_def by simp

lemma table_values:
  "list_all (\<lambda>r. Action r = ''remap'' \<longrightarrow> NewID r = n) rs \<Longrightarrow>
   (\<And>k v. map_of t0 k = Some v \<Longrightarrow> v = n) \<Longrightarrow>
   map_of (foldl (\<lambda>tbl res. if Action res = ''remap'' then AList.update (OldID res) (NewID res) tbl else tbl) t0 rs) k = Some v
   \<Longrightarrow> v = n"
proof (induction rs arbitrary: t0)
  case Nil
  then show ?case by simp
next
  case (Cons r rs)
  show ?case
  proof (rule Cons.IH[where ?t0.0 = "if Action r = ''remap'' then AList.update (OldID r) (NewID r) t0 else t0"])
    show "list_all (\<lambda>r. Action r = ''remap'' \<longrightarrow> NewID r = n) rs" using Cons.prems(1) by simp
  next
    fix k v
    assume "map_of (if Action r = ''remap'' then AList.update (OldID r) (NewID r) t0 else t0) k = Some v"
    then show "v = n" using Cons.prems(1) Cons.prems(2)[of k v]
      by (auto simp: update_conv' split: if_splits)
  next
    show "map_of (foldl (\<lambda>tbl res. if Action res = ''remap'' then AList.update (OldID res) (NewID res) tbl else tbl)
            (if Action r = ''remap'' then AList.update (OldID r) (NewID r) t0 else t0) rs) k = Some v"
      using Cons.prems(3) by simp
  qed
qed

lemma table_keeps:
  "list_all (\<lambda>r. Action r = ''remap'' \<longrightarrow> NewID r = n) rs \<Longrightarrow>
   map_of t0 k = Some n \<Longrightarrow>
   map_of (foldl (\<lambda>tbl res. if Action res = ''remap'' then AList.update (OldID res) (NewID res) tbl else tbl) t0 rs) k = Some n"
proof (induction rs arbitrary: t0)
  case Nil
  then show ?case by simp
next
  case (Cons r rs)
  have "map_of (if Action r = ''remap'' then AList.update (OldID r) (NewID r) t0 else t0) k = Some n"
    using Cons.prems by (auto simp: update_conv')
  from Cons.IH[OF _ this] Cons.prems(1) show ?case by simp
qed

text \<open>
  Claim C6. Within one run of the resolver the remap table grows monotonically: cut the
  resolution list of the run anywhere; an entry \<open>old \<mapsto> new\<close> that the table holds after
  the first part is still \<open>old \<mapsto> new\<close> after the whole list, also when later entries remap
  the same \<open>old\<close> again. (Every allocation of a run returns the same id, since the store
  is not written to between the calls.)
\<close>

theorem remap_table_never_overwritten:
  assumes "fst (resolveConflictsMechanical st cs) = pre @ post"
    and "map_of (buildRemapTable pre) old = Some new"
  shows "map_of (buildRemapTable (pre @ post)) old = Some new"
proof -
  let ?n = "fst (getNextAvailableID st)"
  have all: "list_all (\<lambda>r. Action r = ''remap'' \<longrightarrow> NewID r = ?n) (pre @ post)"
    using resolve_remaps_one_id[of st cs] assms(1) by simp
  then have pre: "list_all (\<lambda>r. Action r = ''remap'' \<longrightarrow> NewID r = ?n) pre"
    and post: "list_all (\<lambda>r. Action r = ''remap'' \<longrightarrow> NewID r = ?n) post" by simp_all
  have "new = ?n"
    using table_values[OF pre, of "[]" old new] assms(2) unfolding buildRemapTable_def by simp
  with assms(2) have "map_of (buildRemapTable pre) old = Some ?n" by simp
  from table_keeps[OF post this] \<open>new = ?n\<close> show ?thesis
    by (simp add: buildRemapTable_append)
qed


text \<open>Two base records carry the colliding id \<open>bd-1\<close>; the second remap entry writes the
  value the first one wrote.\<close>

theorem remap_table_never_overwritten_witness:
  "fst (resolveConflictsMechanical (storeOfIDs [''bd-1'', ''bd-5''])
          [\<lparr>HeadIssues = [issueWithID ''bd-1''],
            BaseIssues = [issueWithID ''bd-1'', issueWithID ''bd-1''],
            LineStart = 1, LineEnd = 6\<rparr>])
     = [keepHead ''bd-1'', remapBase ''bd-1'' ''bd-6''] @ [remapBase ''bd-1'' ''bd-6'']
   \<and> map_of (buildRemapTable [keepHead ''bd-1'', remapBase ''bd-1'' ''bd-6'']) ''bd-1'' = Some ''bd-6''
   \<and> map_of (buildRemapTable ([keepHead ''bd-1'', remapBase ''bd-1'' ''bd-6''] @ [remapBase ''bd-1'' ''bd-6''])) ''bd-1''
       = Some ''bd-6''"
proof -
  have run: "fst (resolveConflictsMechanical (storeOfIDs [''bd-1'', ''bd-5''])
          [\<lparr>HeadIssues = [issueWithID ''bd-1''],
            BaseIssues = [issueWithID ''bd-1'', issueWithID ''bd-1''],
            LineStart = 1, LineEnd = 6\<rparr>])
     = [keepHead ''bd-1'', remapBase ''bd-1'' ''bd-6''] @ [remapBase ''bd-1'' ''bd-6'']"
    by code_simp
  have tbl: "map_of (buildRemapTable [keepHead ''bd-1'', remapBase ''bd-1'' ''bd-6'']) ''bd-1'' = Some ''bd-6''"
    by code_simp
  from remap_table_never_overwritten[OF run tbl] run tbl show ?thesis by simp
qed

section \<open>Marker lines\<close>


lemma divider_not_other:
  "HasPrefix t ''======='' \<Longrightarrow> t \<noteq> [] \<and> \<not> HasPrefix t ''<<<<<<<'' \<and> \<not> HasPrefix t ''>>>>>>>''"
  by (cases t) (auto simp: HasPrefix_def)

lemma open_not_other:
  "HasPrefix t ''<<<<<<<'' \<Longrightarrow> t \<noteq> [] \<and> \<not> HasPrefix t ''======='' \<and> \<not> HasPrefix t ''>>>>>>>''"
  by (cases t) (auto simp: HasPrefix_def)

lemma close_not_other:
  "HasPrefix t ''>>>>>>>'' \<Longrightarrow> t \<noteq> [] \<and> \<not> HasPrefix t ''======='' \<and> \<not> HasPrefix t ''<<<<<<<''"
  by (cases t) (auto simp: HasPrefix_def)

lemma scanLine_divider:
  "HasPrefix (TrimSpace l) ''======='' \<Longrightarrow>
   scanLine e st l = (if inConflict st then st\<lparr>lineNum := lineNum st + 1, inHead := False\<rparr>
                      else st\<lparr>lineNum := lineNum st + 1\<rparr>)"
  by (frule divider_not_other) (simp add: scanLine_def Let_def)

lemma scanLine_not_divider:
  "\<not> HasPrefix (TrimSpace l) ''======='' \<Longrightarrow> inConflict st \<Longrightarrow> inHead st \<Longrightarrow>
   inConflict (scanLine e st l) \<Longrightarrow> inHead (scanLine e st l)"
  by (auto simp: scanLine_def Let_def split: if_splits option.splits)

lemma applyLine_divider:
  "HasPrefix (TrimSpace l) ''======='' \<Longrightarrow> applyLine e tbl ast l = ast"
  by (frule divider_not_other) (simp add: applyLine_def Let_def)

text \<open>
  Claim C7, as the code has it. A line switches the scanner from the head side to the base
  side exactly when the scanner is inside a region, on the head side, and the line, with
  the white space around it trimmed, begins with \<open>=======\<close>; what follows the seven
  characters does not matter. Outside a region such a line changes nothing in the scanner
  but the line count. The reconstructor passes over every such line, inside a region or
  outside, so the line is not in the rewritten file.
\<close>

theorem divider_line_effect:
  "((inConflict st \<and> inHead st \<and> inConflict (scanLine e st l) \<and> \<not> inHead (scanLine e st l))
      = (inConflict st \<and> inHead st \<and> HasPrefix (TrimSpace l) ''======='')) \<and>
   (\<not> inConflict st \<and> HasPrefix (TrimSpace l) ''======='' \<longrightarrow>
      scanLine e st l = st\<lparr>lineNum := lineNum st + 1\<rparr>) \<and>
   (HasPrefix (TrimSpace l) ''======='' \<longrightarrow> applyLine e tbl ast l = ast)"
proof (intro conjI impI)
  show "(inConflict st \<and> inHead st \<and> inConflict (scanLine e st l) \<and> \<not> inHead (scanLine e st l))
      = (inConflict st \<and> inHead st \<and> HasPrefix (TrimSpace l) ''======='')"
  proof (cases "HasPrefix (TrimSpace l) ''=======''")
    case True
    then show ?thesis by (simp add: scanLine_divider)
  next
    case False
    then show ?thesis using scanLine_not_divider[of l st e] by blast
  qed
next
  assume "\<not> inConflict st \<and> HasPrefix (TrimSpace l) ''=======''"
  then show "scanLine e st l = st\<lparr>lineNum := lineNum st + 1\<rparr>"
    by (simp add: scanLine_divider)
next
  assume "HasPrefix (TrimSpace l) ''=======''"
  then show "applyLine e tbl ast l = ast" by (rule applyLine_divider)
qed

text \<open>The line \<open>=======x\<close> with leading blanks, fed to the scanner inside a region and
  outside, and to the reconstructor.\<close>

theorem divider_line_effect_witness:
  "inConflict inHeadState \<and> inHead inHeadState \<and> HasPrefix (TrimSpace ''  =======x'') ''=======''
   \<and> inConflict (scanLine jsonEnv inHeadState ''  =======x'')
   \<and> \<not> inHead (scanLine jsonEnv inHeadState ''  =======x'')
   \<and> \<not> inConflict (scanInit :: (unit, unit) scanState)
   \<and> scanLine jsonEnv scanInit ''  =======x'' = scanInit\<lparr>lineNum := lineNum (scanInit :: (unit, unit) scanState) + 1\<rparr>
   \<and> applyLine jsonEnv [] applyInit ''  =======x'' = applyInit"
proof -
  have a: "inConflict inHeadState \<and> inHead inHeadState" by code_simp
  have b: "HasPrefix (TrimSpace ''  =======x'') ''=======''" by code_simp
  have c: "\<not> inConflict (scanInit :: (unit, unit) scanState)" by (simp add: scanInit_def)
  note t1 = divider_line_effect[of inHeadState jsonEnv "''  =======x''" "[]" applyInit]
  note t2 = divider_line_effect[of scanInit jsonEnv "''  =======x''" "[]" applyInit]
  from a b c t1 t2 show ?thesis by blast
qed

text \<open>
  Claim C7 as stated asks for a line that is exactly the marker, and takes any other line
  as content. In the region below the line \<open>=======x\<close> is not the marker, yet the
  record after it is a base record.
\<close>

theorem divider_prefix_switches_sides:
  \<open>detectConflicts jsonEnv
     (fileOfLines [''<<<<<<< HEAD'', ''{"id":"bd-1","title":"A"}'', ''=======x'',
                   ''{"id":"bd-2","title":"B"}'', ''>>>>>>> branch''])
   = ([\<lparr>HeadIssues = [emptyIssue\<lparr>ID := ''bd-1'', Title := ''A''\<rparr>],
        BaseIssues = [emptyIssue\<lparr>ID := ''bd-2'', Title := ''B''\<rparr>],
        LineStart = 1, LineEnd = 5\<rparr>], None)\<close>
  by code_simp

section \<open>Lines and tokens\<close>

lemma space_rune_cr: "r \<in> set spaceRunes \<Longrightarrow> r = [CHR 0x0D] \<or> CHR 0x0D \<notin> set r"
  by (auto simp: spaceRunes_def)

lemma prefix_snoc_cr:
  assumes "r \<in> set spaceRunes" and "x \<noteq> []"
  shows "prefix r (x @ [CHR 0x0D]) = prefix r x"
proof (cases "r = [CHR 0x0D]")
  case True
  with assms(2) show ?thesis by (cases x) auto
next
  case False
  with space_rune_cr[OF assms(1)] have "CHR 0x0D \<notin> set r" by simp
  then have "r \<noteq> x @ [CHR 0x0D]" by auto
  then show ?thesis by (simp add: prefix_snoc)
qed

lemma find_cong_set: "(\<And>r. r \<in> set rs \<Longrightarrow> P r = Q r) \<Longrightarrow> List.find P rs = List.find Q rs"
  by (induction rs) auto

lemma trimRunes_snoc_cr:
  "trimRunes spaceRunes (x @ [CHR 0x0D]) =
     (if trimRunes spaceRunes x = [] then [] else trimRunes spaceRunes x @ [CHR 0x0D])"
proof (induction "length x" arbitrary: x rule: less_induct)
  case less
  show ?case
  proof (cases "x = []")
    case True
    have a: "trimRunes spaceRunes [CHR 0x0D] = trimRunes spaceRunes []"
      by (subst trimRunes.simps) (simp add: spaceRunes_def)
    have b: "trimRunes spaceRunes [] = []"
      by (subst trimRunes.simps) (simp add: spaceRunes_def)
    from True a b show ?thesis by simp
  next
    case False
    have eq: "List.find (\<lambda>r. r \<noteq> [] \<and> prefix r (x @ [CHR 0x0D])) spaceRunes
            = List.find (\<lambda>r. r \<noteq> [] \<and> prefix r x) spaceRunes"
    proof (rule find_cong_set)
      fix r :: string
      assume "r \<in> set spaceRunes"
      from prefix_snoc_cr[OF this False]
      show "(r \<noteq> [] \<and> prefix r (x @ [CHR 0x0D])) = (r \<noteq> [] \<and> prefix r x)"
        by (simp del: prefix_snoc)
    qed
    show ?thesis
    proof (cases "List.find (\<lambda>r. r \<noteq> [] \<and> prefix r x) spaceRunes")
      case None
      then have "trimRunes spaceRunes x = x" by (subst trimRunes.simps) simp
      moreover from None eq have "trimRunes spaceRunes (x @ [CHR 0x0D]) = x @ [CHR 0x0D]"
        by (subst trimRunes.simps) simp
      ultimately show ?thesis using False by simp
    next
      case (Some r)
      then have r: "r \<noteq> []" "prefix r x" by (auto simp: find_Some_iff)
      then have len: "length r \<le> length x" by (simp add: prefix_length_le)
      from r have shorter: "length (drop (length r) x) < length x" using False by simp
      have "trimRunes spaceRunes (x @ [CHR 0x0D]) = trimRunes spaceRunes (drop (length r) x @ [CHR 0x0D])"
        using Some eq len by (subst trimRunes.simps) simp
      moreover have "trimRunes spaceRunes x = trimRunes spaceRunes (drop (length r) x)"
        using Some by (subst trimRunes.simps) simp
      ultimately show ?thesis using less[OF shorter] by simp
    qed
  qed
qed

lemma trimRunes_rev_cr:
  "trimRunes (map rev spaceRunes) (CHR 0x0D # t) = trimRunes (map rev spaceRunes) t"
  by (subst trimRunes.simps) (simp add: spaceRunes_def)

lemma TrimSpace_snoc_cr: "TrimSpace (x @ [CHR 0x0D]) = TrimSpace x"
  by (simp add: TrimSpace_def trimRunes_snoc_cr trimRunes_rev_cr)

lemma TrimSpace_dropCR: "TrimSpace (dropCR l) = TrimSpace l"
proof (cases "l \<noteq> [] \<and> last l = CHR 0x0D")
  case True
  then have "l = butlast l @ [CHR 0x0D]" by (metis append_butlast_last_id)
  then have "TrimSpace l = TrimSpace (butlast l)" using TrimSpace_snoc_cr by metis
  with True show ?thesis by (simp add: dropCR_def)
next
  case False
  then show ?thesis by (auto simp: dropCR_def)
qed

lemma scanLine_dropCR: "scanLine e st (dropCR l) = scanLine e st l"
  by (simp add: scanLine_def TrimSpace_dropCR)

lemma scanLines_dropCR: "scanLines e st (map dropCR ls) = scanLines e st ls"
  unfolding scanLines_def by (induction ls arbitrary: st) (simp_all add: scanLine_dropCR)


lemma find_False_None: "List.find (\<lambda>r. False) rs = None"
  by (induction rs) auto

lemma trimRunes_Nil: "trimRunes rs [] = []"
  by (subst trimRunes.simps) (simp add: find_False_None)

lemma TrimSpace_Nil: "TrimSpace [] = []"
  by (simp add: TrimSpace_def trimRunes_Nil)

section \<open>The two loops\<close>

lemma scanLines_append: "scanLines e st (a @ b) = scanLines e (scanLines e st a) b"
  by (simp add: scanLines_def)

lemma applyLines_append: "applyLines e tbl st (a @ b) = applyLines e tbl (applyLines e tbl st a) b"
  by (simp add: applyLines_def)

lemma scanLine_no_close:
  "\<not> HasPrefix (TrimSpace l) ''>>>>>>>'' \<Longrightarrow> conflicts (scanLine e st l) = conflicts st"
  by (auto simp: scanLine_def Let_def split: option.splits)

lemma scanLines_no_close:
  "list_all (\<lambda>l. \<not> HasPrefix (TrimSpace l) ''>>>>>>>'') ls \<Longrightarrow>
   conflicts (scanLines e st ls) = conflicts st"
proof (induction ls arbitrary: st)
  case Nil
  then show ?case by (simp add: scanLines_def)
next
  case (Cons l ls)
  then have "conflicts (scanLines e (scanLine e st l) ls) = conflicts (scanLine e st l)" by simp
  with Cons.prems show ?case by (simp add: scanLines_def scanLine_no_close)
qed

lemma applyLine_open:
  "HasPrefix (TrimSpace l) ''<<<<<<<'' \<Longrightarrow>
   applyLine e tbl st l = st\<lparr>inRegion := True, conflictLines := []\<rparr>"
  by (simp add: applyLine_def Let_def)

lemma applyLine_inside_no_close:
  "inRegion st \<Longrightarrow> \<not> HasPrefix (TrimSpace l) ''>>>>>>>'' \<Longrightarrow>
   inRegion (applyLine e tbl st l) \<and> resolved (applyLine e tbl st l) = resolved st"
  by (auto simp: applyLine_def Let_def split: option.splits)

lemma applyLines_inside_no_close:
  "inRegion st \<Longrightarrow> list_all (\<lambda>l. \<not> HasPrefix (TrimSpace l) ''>>>>>>>'') ls \<Longrightarrow>
   resolved (applyLines e tbl st ls) = resolved st"
proof (induction ls arbitrary: st)
  case Nil
  then show ?case by (simp add: applyLines_def)
next
  case (Cons l ls)
  from Cons.prems have step: "inRegion (applyLine e tbl st l)" "resolved (applyLine e tbl st l) = resolved st"
    using applyLine_inside_no_close[of st l e tbl] by simp_all
  from Cons.prems have "list_all (\<lambda>l. \<not> HasPrefix (TrimSpace l) ''>>>>>>>'') ls" by simp
  from Cons.IH[OF step(1) this] step(2) show ?case by (simp add: applyLines_def)
qed

lemma applyLines_unterminated:
  assumes "HasPrefix (TrimSpace opn) ''<<<<<<<''"
    and "list_all (\<lambda>l. \<not> HasPrefix (TrimSpace l) ''>>>>>>>'') post"
  shows "resolved (applyLines e tbl st (pre @ opn # post)) = resolved (applyLines e tbl st pre)"
proof -
  let ?mid = "applyLine e tbl (applyLines e tbl st pre) opn"
  have split: "applyLines e tbl st (pre @ opn # post) = applyLines e tbl ?mid post"
    by (simp add: applyLines_def)
  have "inRegion ?mid" "resolved ?mid = resolved (applyLines e tbl st pre)"
    using assms(1) by (simp_all add: applyLine_open)
  with applyLines_inside_no_close[OF _ assms(2), of ?mid e tbl] split show ?thesis by simp
qed

lemma scanLines_unterminated:
  assumes "HasPrefix (TrimSpace opn) ''<<<<<<<''"
    and "list_all (\<lambda>l. \<not> HasPrefix (TrimSpace l) ''>>>>>>>'') post"
  shows "conflicts (scanLines e st (pre @ opn # post)) = conflicts (scanLines e st pre)"
proof -
  from assms(1) have "\<not> HasPrefix (TrimSpace opn) ''>>>>>>>''"
    by (cases "TrimSpace opn") (auto simp: HasPrefix_def)
  with assms(2) have "list_all (\<lambda>l. \<not> HasPrefix (TrimSpace l) ''>>>>>>>'') (opn # post)" by simp
  from scanLines_no_close[OF this] show ?thesis
    by (simp add: scanLines_append)
qed

lemma list_all_butlast: "list_all P xs \<Longrightarrow> list_all P (butlast xs)"
  by (auto simp: list_all_iff dest: in_set_butlastD)

lemma detect_readable:
  "content f = Some s \<Longrightarrow>
   fst (detectConflicts e f) =
     (if tokenTooLong s then []
      else conflicts (scanLines e scanInit
             (if last (Split s (CHR 0x0A)) = [] then butlast (Split s (CHR 0x0A)) else Split s (CHR 0x0A))))"
  by (simp add: detectConflicts_def scanTokens_def Let_def scanLines_dropCR)

text \<open>
  Claim C10. When the lines of the file are \<open>pre\<close>, then an open marker with no close
  marker anywhere after it, the scanner reports the regions of \<open>pre\<close> and none for that
  open marker, and the reconstructor's output is its output for \<open>pre\<close>: no line from the
  open marker to the end of the file reaches the file it writes.
\<close>

theorem unterminated_region_is_dropped:
  assumes "content f = Some s"
    and "Split s (CHR 0x0A) = pre @ opn # post"
    and "HasPrefix (TrimSpace opn) ''<<<<<<<''"
    and "list_all (\<lambda>l. \<not> HasPrefix (TrimSpace l) ''>>>>>>>'') post"
  shows "fst (detectConflicts e f)
           = (if tokenTooLong s then [] else conflicts (scanLines e scanInit pre))
       \<and> resolved (applyLines e tbl applyInit (pre @ opn # post))
           = resolved (applyLines e tbl applyInit pre)
       \<and> snd (applyResolutions e f cs rs)
           = (if writable f
              then f\<lparr>content := Some (Join (resolved (applyLines e (buildRemapTable rs) applyInit pre))
                                        [CHR 0x0A])\<rparr>
              else f)"
proof (intro conjI)
  have opn_ne: "opn \<noteq> []"
  proof
    assume "opn = []"
    then have "TrimSpace opn = []" by (simp add: TrimSpace_Nil)
    with assms(3) show False by (simp add: HasPrefix_def)
  qed
  let ?ls = "Split s (CHR 0x0A)"
  have "conflicts (scanLines e scanInit (if last ?ls = [] then butlast ?ls else ?ls))
          = conflicts (scanLines e scanInit pre)"
  proof (cases "last ?ls = []")
    case False
    then show ?thesis using scanLines_unterminated[OF assms(3,4)] assms(2) by simp
  next
    case True
    with assms(2) opn_ne have "post \<noteq> []" by auto
    then have "butlast ?ls = pre @ opn # butlast post"
      using assms(2) by (simp add: butlast_append)
    with True scanLines_unterminated[OF assms(3) list_all_butlast[OF assms(4)]]
    show ?thesis by simp
  qed
  then show "fst (detectConflicts e f)
           = (if tokenTooLong s then [] else conflicts (scanLines e scanInit pre))"
    by (simp add: detect_readable[OF assms(1)])
next
  show "resolved (applyLines e tbl applyInit (pre @ opn # post))
           = resolved (applyLines e tbl applyInit pre)"
    by (rule applyLines_unterminated[OF assms(3,4)])
next
  show "snd (applyResolutions e f cs rs)
           = (if writable f
              then f\<lparr>content := Some (Join (resolved (applyLines e (buildRemapTable rs) applyInit pre))
                                        [CHR 0x0A])\<rparr>
              else f)"
    using assms(1,2) applyLines_unterminated[OF assms(3,4), of e "buildRemapTable rs" applyInit pre]
    by (simp add: applyResolutions_def Let_def)
qed


text \<open>A record, then an open marker and two records with a divider between them, and no
  close marker: the file written holds the first record only.\<close>

theorem unterminated_region_is_dropped_witness:
  \<open>Split (Join [''{"id":"bd-3","title":"X"}'', ''<<<<<<< HEAD'', ''{"id":"bd-1","title":"A"}'',
                ''======='', ''{"id":"bd-2","title":"B"}''] [CHR 0x0A]) (CHR 0x0A)
     = [''{"id":"bd-3","title":"X"}''] @ ''<<<<<<< HEAD'' #
       [''{"id":"bd-1","title":"A"}'', ''======='', ''{"id":"bd-2","title":"B"}'']
   \<and> HasPrefix (TrimSpace ''<<<<<<< HEAD'') ''<<<<<<<''
   \<and> list_all (\<lambda>l. \<not> HasPrefix (TrimSpace l) ''>>>>>>>'')
        [''{"id":"bd-1","title":"A"}'', ''======='', ''{"id":"bd-2","title":"B"}'']
   \<and> fst (detectConflicts jsonEnv
          (fileOfLines [''{"id":"bd-3","title":"X"}'', ''<<<<<<< HEAD'', ''{"id":"bd-1","title":"A"}'',
                        ''======='', ''{"id":"bd-2","title":"B"}''])) = []
   \<and> snd (applyResolutions jsonEnv
          (fileOfLines [''{"id":"bd-3","title":"X"}'', ''<<<<<<< HEAD'', ''{"id":"bd-1","title":"A"}'',
                        ''======='', ''{"id":"bd-2","title":"B"}'']) [] [])
       = fileOfLines [''{"id":"bd-3","title":"X"}'']\<close>
proof -
  let ?ls = \<open>[''{"id":"bd-3","title":"X"}'', ''<<<<<<< HEAD'', ''{"id":"bd-1","title":"A"}'',
              ''======='', ''{"id":"bd-2","title":"B"}'']\<close>
  let ?pre = \<open>[''{"id":"bd-3","title":"X"}'']\<close>
  let ?post = \<open>[''{"id":"bd-1","title":"A"}'', ''======='', ''{"id":"bd-2","title":"B"}'']\<close>
  have h1: "content (fileOfLines ?ls) = Some (Join ?ls [CHR 0x0A])"
    by (simp add: fileOfLines_def)
  have h2: "Split (Join ?ls [CHR 0x0A]) (CHR 0x0A) = ?pre @ ''<<<<<<< HEAD'' # ?post"
    by code_simp
  have h3: "HasPrefix (TrimSpace ''<<<<<<< HEAD'') ''<<<<<<<''"
    by code_simp
  have h4: "list_all (\<lambda>l. \<not> HasPrefix (TrimSpace l) ''>>>>>>>'') ?post"
    by code_simp
  have r1: "tokenTooLong (Join ?ls [CHR 0x0A]) = False"
    by code_simp
  have r2: "conflicts (scanLines jsonEnv scanInit ?pre) = []"
    by code_simp
  have r3: "resolved (applyLines jsonEnv (buildRemapTable []) applyInit ?pre) = ?pre"
    by code_simp
  have r4: "writable (fileOfLines ?ls)"
    by (simp add: fileOfLines_def)
  from unterminated_region_is_dropped[OF h1 h2 h3 h4, of jsonEnv "[]" "[]" "[]"] h2 h3 h4
  show ?thesis
    by (simp add: r1 r2 r3 r4 fileOfLines_def)
qed

section \<open>Failure of the identifier source\<close>




section \<open>Identity and references after a collision\<close>

text \<open>
  Claim C2. On a collision the head record keeps its id, only the base record is renamed,
  and references in head-side records stay as they are. The code does not do this:
  \<open>applyResolutions\<close> does not track the side of a record and looks every id inside a
  region up in the remap table. In Scenario B below (store high-water \<open>bd-5\<close>) the head
  record \<open>bd-1\<close> is written back as \<open>bd-6\<close>, the id of the renamed base record, and the
  head-side mention of \<open>bd-1\<close> is rewritten as well.
\<close>

theorem head_record_is_renamed_too:
  \<open>resolveConflictsCmd jsonEnv True False (storeOfIDs [''bd-1'', ''bd-5''])
     (fileOfLines [''<<<<<<< HEAD'',
                   ''{"id":"bd-1","title":"A"}'',
                   ''{"id":"bd-2","title":"H","description":"after bd-1"}'',
                   ''======='',
                   ''{"id":"bd-1","title":"B"}'',
                   ''>>>>>>> branch''])
   = (Applied 1 3,
      fileOfLines [''{"id":"bd-6","title":"A"}'',
                   ''{"id":"bd-2","title":"H","description":"after bd-6"}'',
                   ''{"id":"bd-6","title":"B"}''])\<close>
  by code_simp

text \<open>
  Claim C3. References to a remapped id are rewritten everywhere, and ids that were not
  remapped are not corrupted. The code breaks the second half: free text is rewritten by
  \<open>strings.ReplaceAll\<close> on plain substrings, while dependency targets are compared as
  whole ids. Below \<open>bd-1\<close> is remapped to \<open>bd-11\<close>; the record \<open>bd-3\<close> outside the
  region mentions \<open>bd-10\<close>, which is not remapped, and the mention comes out as \<open>bd-110\<close>.
\<close>

theorem substring_of_other_id_is_rewritten:
  \<open>resolveConflictsCmd jsonEnv True False (storeOfIDs [''bd-1'', ''bd-10''])
     (fileOfLines [''{"id":"bd-10","title":"T"}'',
                   ''{"id":"bd-3","title":"X","description":"see bd-10"}'',
                   ''<<<<<<< HEAD'',
                   ''{"id":"bd-1","title":"A"}'',
                   ''======='',
                   ''{"id":"bd-1","title":"B"}'',
                   ''>>>>>>> branch''])
   = (Applied 1 2,
      fileOfLines [''{"id":"bd-10","title":"T"}'',
                   ''{"id":"bd-3","title":"X","description":"see bd-110"}'',
                   ''{"id":"bd-11","title":"A"}'',
                   ''{"id":"bd-11","title":"B"}''])\<close>
  by code_simp

section \<open>Lines outside a region\<close>




lemma applyLine_outside:
  assumes "\<not> inRegion st"
    and "\<not> HasPrefix (TrimSpace l) ''<<<<<<<''"
    and "\<not> HasPrefix (TrimSpace l) ''=======''"
    and "\<not> HasPrefix (TrimSpace l) ''>>>>>>>''"
  shows "applyLine e tbl st l = st\<lparr>resolved := resolved st @
          [case (if TrimSpace l = [] \<or> HasPrefix (TrimSpace l) ''<'' \<or> HasPrefix (TrimSpace l) ''=''
                    \<or> HasPrefix (TrimSpace l) ''>''
                 then None else unmarshal e (TrimSpace l)) of
             None \<Rightarrow> l
           | Some issue \<Rightarrow>
               if list_all (\<lambda>dep. map_of tbl (DependsOnID dep) = None) (Dependencies issue)
                  \<and> remapTextReferences e (Description issue) tbl = Description issue
                  \<and> remapTextReferences e (Design issue) tbl = Design issue
                  \<and> remapTextReferences e (AcceptanceCriteria issue) tbl = AcceptanceCriteria issue
                  \<and> remapTextReferences e (Notes issue) tbl = Notes issue
               then l
               else marshal e
                      (issue\<lparr>Dependencies := map (remapDependency tbl) (Dependencies issue),
                             Description := remapTextReferences e (Description issue) tbl,
                             Design := remapTextReferences e (Design issue) tbl,
                             AcceptanceCriteria := remapTextReferences e (AcceptanceCriteria issue) tbl,
                             Notes := remapTextReferences e (Notes issue) tbl\<rparr>)]\<rparr>"
  using assms
  by (simp add: applyLine_def Let_def rewriteOutside_def remapTexts_def split: option.splits)



section \<open>Re-serialized records\<close>








section \<open>No conflict markers\<close>

lemma Split_nonempty: "Split s c \<noteq> []"
  by (induction s) (auto split: list.splits)

lemma Join_Cons: "ps \<noteq> [] \<Longrightarrow> Join (p # ps) sep = p @ sep @ Join ps sep"
  by (cases ps) simp_all

lemma Join_Cons_head: "Join ((x # p) # ps) sep = x # Join (p # ps) sep"
  by (cases ps) simp_all

lemma Join_Split: "Join (Split s c) [c] = s"
proof (induction s)
  case Nil
  then show ?case by simp
next
  case (Cons x xs)
  show ?case
  proof (cases "x = c")
    case True
    then show ?thesis using Cons.IH by (simp add: Join_Cons[OF Split_nonempty])
  next
    case False
    obtain p ps where sp: "Split xs c = p # ps"
      using Split_nonempty[of xs c] by (cases "Split xs c") auto
    with False Cons.IH show ?thesis by (simp add: Join_Cons_head)
  qed
qed

lemma applyLine_plain:
  assumes "rangeOrder e [] = []"
    and "\<not> inRegion st"
    and "\<not> HasPrefix (TrimSpace l) ''<<<<<<<''"
    and "\<not> HasPrefix (TrimSpace l) ''=======''"
    and "\<not> HasPrefix (TrimSpace l) ''>>>>>>>''"
  shows "applyLine e [] st l = st\<lparr>resolved := resolved st @ [l]\<rparr>"
  unfolding applyLine_outside[OF assms(2-5)]
  using assms(1) by (simp add: remapTextReferences_def list_all_iff split: option.splits)

lemma applyLines_plain:
  assumes "rangeOrder e [] = []"
  shows "\<not> inRegion st \<Longrightarrow>
    list_all (\<lambda>l. \<not> HasPrefix (TrimSpace l) ''<<<<<<<'' \<and> \<not> HasPrefix (TrimSpace l) ''=======''
                        \<and> \<not> HasPrefix (TrimSpace l) ''>>>>>>>'') ls \<Longrightarrow>
    applyLines e [] st ls = st\<lparr>resolved := resolved st @ ls\<rparr>"
proof (induction ls arbitrary: st)
  case Nil
  then show ?case by (simp add: applyLines_def)
next
  case (Cons l ls)
  from Cons.prems have step: "applyLine e [] st l = st\<lparr>resolved := resolved st @ [l]\<rparr>"
    by (simp add: applyLine_plain[OF assms])
  have "\<not> inRegion (st\<lparr>resolved := resolved st @ [l]\<rparr>)" using Cons.prems(1) by simp
  from Cons.IH[OF this] Cons.prems(2)
  have "applyLines e [] (st\<lparr>resolved := resolved st @ [l]\<rparr>) ls
          = st\<lparr>resolved := resolved st @ [l]\<rparr>\<lparr>resolved := resolved (st\<lparr>resolved := resolved st @ [l]\<rparr>) @ ls\<rparr>"
    by simp
  then show ?case using step by (simp add: applyLines_def)
qed

text \<open>
  Claim C9. When no line of the file begins, once trimmed, with one of the three markers,
  \<open>detectConflicts\<close> returns no conflict block and the command, whatever its flags and
  the store, leaves the file as it was. The reconstructor alone, run on such a file with
  a resolution list that remaps nothing, writes back the bytes it read (a \<open>range\<close> over
  the empty table visits nothing).
\<close>

theorem no_markers_no_change:
  assumes "content f = Some s"
    and "list_all (\<lambda>l. \<not> HasPrefix (TrimSpace l) ''<<<<<<<'' \<and> \<not> HasPrefix (TrimSpace l) ''=======''
                        \<and> \<not> HasPrefix (TrimSpace l) ''>>>>>>>'') (Split s (CHR 0x0A))"
  shows "fst (detectConflicts e f) = []
       \<and> snd (resolveConflictsCmd e auto dryRun st f) = f
       \<and> (rangeOrder e [] = [] \<and> buildRemapTable rs = [] \<longrightarrow> snd (applyResolutions e f cs rs) = f)"
proof -
  let ?ls = "Split s (CHR 0x0A)"
  from assms(2) have nc: "list_all (\<lambda>l. \<not> HasPrefix (TrimSpace l) ''>>>>>>>'') ?ls"
    by (simp add: list_all_iff)
  then have "list_all (\<lambda>l. \<not> HasPrefix (TrimSpace l) ''>>>>>>>'')
               (if last ?ls = [] then butlast ?ls else ?ls)"
    by (simp add: list_all_butlast)
  from scanLines_no_close[OF this, of e scanInit]
  have c: "conflicts (scanLines e scanInit (if last ?ls = [] then butlast ?ls else ?ls))
             = conflicts (scanInit :: ('a, 'b) scanState)" .
  have i: "conflicts (scanInit :: ('a, 'b) scanState) = []"
    by (simp add: scanInit_def)
  have d: "fst (detectConflicts e f) = []"
    unfolding detect_readable[OF assms(1)] c i by simp
  obtain cs' err where r: "detectConflicts e f = (cs', err)"
    by (cases "detectConflicts e f")
  with d have "cs' = []" by simp
  with r have cmd: "snd (resolveConflictsCmd e auto dryRun st f) = f"
    by (cases err) (simp_all add: resolveConflictsCmd_def)
  have app: "rangeOrder e [] = [] \<and> buildRemapTable rs = [] \<longrightarrow> snd (applyResolutions e f cs rs) = f"
  proof
    assume a: "rangeOrder e [] = [] \<and> buildRemapTable rs = []"
    then have ro: "rangeOrder e [] = []" and tb: "buildRemapTable rs = []" by simp_all
    have ni: "\<not> inRegion applyInit" by (simp add: applyInit_def)
    have "applyLines e [] applyInit ?ls = applyInit\<lparr>resolved := resolved applyInit @ ?ls\<rparr>"
      by (rule applyLines_plain[OF ro ni assms(2)])
    then have "resolved (applyLines e [] applyInit ?ls) = ?ls"
      by (simp add: applyInit_def)
    then have "Join (resolved (applyLines e (buildRemapTable rs) applyInit ?ls)) [CHR 0x0A] = s"
      by (simp add: tb Join_Split)
    then show "snd (applyResolutions e f cs rs) = f"
      using assms(1) by (simp add: applyResolutions_def Let_def)
  qed
  from d cmd app show ?thesis by simp
qed

text \<open>A file of two records, the second one indented, run with \<open>--auto\<close>, and given to
  the reconstructor with one keep resolution.\<close>

theorem no_markers_no_change_witness:
  \<open>list_all (\<lambda>l. \<not> HasPrefix (TrimSpace l) ''<<<<<<<'' \<and> \<not> HasPrefix (TrimSpace l) ''=======''
                  \<and> \<not> HasPrefix (TrimSpace l) ''>>>>>>>'')
      (Split (Join [''{"id":"bd-1","title":"A"}'', ''  {"id":"bd-2","title":"B"}''] [CHR 0x0A]) (CHR 0x0A))
   \<and> fst (detectConflicts jsonEnv
            (fileOfLines [''{"id":"bd-1","title":"A"}'', ''  {"id":"bd-2","title":"B"}''])) = []
   \<and> snd (resolveConflictsCmd jsonEnv True False (storeOfIDs [''bd-1'', ''bd-2''])
            (fileOfLines [''{"id":"bd-1","title":"A"}'', ''  {"id":"bd-2","title":"B"}'']))
       = fileOfLines [''{"id":"bd-1","title":"A"}'', ''  {"id":"bd-2","title":"B"}'']
   \<and> rangeOrder jsonEnv [] = [] \<and> buildRemapTable [keepHead ''bd-1''] = []
   \<and> snd (applyResolutions jsonEnv
            (fileOfLines [''{"id":"bd-1","title":"A"}'', ''  {"id":"bd-2","title":"B"}''])
            [] [keepHead ''bd-1''])
       = fileOfLines [''{"id":"bd-1","title":"A"}'', ''  {"id":"bd-2","title":"B"}'']\<close>
proof -
  let ?ls = \<open>[''{"id":"bd-1","title":"A"}'', ''  {"id":"bd-2","title":"B"}'']\<close>
  have h1: "content (fileOfLines ?ls) = Some (Join ?ls [CHR 0x0A])"
    by (simp add: fileOfLines_def)
  have h2: "list_all (\<lambda>l. \<not> HasPrefix (TrimSpace l) ''<<<<<<<'' \<and> \<not> HasPrefix (TrimSpace l) ''=======''
                  \<and> \<not> HasPrefix (TrimSpace l) ''>>>>>>>'') (Split (Join ?ls [CHR 0x0A]) (CHR 0x0A))"
    by code_simp
  have h3: "rangeOrder jsonEnv [] = []" by (simp add: jsonEnv_def)
  have h4: "buildRemapTable [keepHead ''bd-1''] = []" by code_simp
  from no_markers_no_change[OF h1 h2, of jsonEnv True False "storeOfIDs [''bd-1'', ''bd-2'']"
         "[keepHead ''bd-1'']" "[]"] h2 h3 h4
  show ?thesis by simp
qed

end
